theory Spec2Isabelle
  imports Complex_Main
begin


section \<open>Python values used by the caption tool\<close>

text \<open>
  A Python \<open>str\<close> is modelled as a \<open>string\<close> (a list of characters); a character stands
  for a code point below 256. An \<open>Optional[str]\<close> is a \<open>string option\<close>. Exceptions are
  values: \<open>Raised e\<close> is an exception that comes out of a library call (Pillow, the
  provider clients, geopy) and is identified by \<open>e\<close>.
\<close>

datatype exn =
    ValueError string
  | KeyError string
  | IndexError
  | AttributeError
  | Raised string

text \<open>Truth value of an optional string: \<open>None\<close> and the empty string are falsy.\<close>

definition truthy :: "string option \<Rightarrow> bool" where
  "truthy v = (case v of None \<Rightarrow> False | Some s \<Rightarrow> s \<noteq> [])"

text \<open>\<open>a or b\<close> on optional strings.\<close>

definition py_or :: "string option \<Rightarrow> string option \<Rightarrow> string option" where
  "py_or a b = (if truthy a then a else b)"

text \<open>\<open>str.lower()\<close> on code points below 256: A-Z and the Latin-1 capitals.\<close>

definition lower_char :: "char \<Rightarrow> char" where
  "lower_char c =
     (let n = (of_char c :: nat) in
      if (65 \<le> n \<and> n \<le> 90) \<or> (192 \<le> n \<and> n \<le> 222 \<and> n \<noteq> 215)
      then char_of (n + 32) else c)"

definition lower :: "string \<Rightarrow> string" where
  "lower s = map lower_char s"

text \<open>
  \<open>str.isspace\<close> on code points below 256 (tab to carriage return, the four
  separators 0x1C to 0x1F, space, NEL and the no-break space), and \<open>str.strip()\<close>.
\<close>

definition isspace :: "char \<Rightarrow> bool" where
  "isspace c =
     (let n = (of_char c :: nat) in
      (9 \<le> n \<and> n \<le> 13) \<or> (28 \<le> n \<and> n \<le> 32) \<or> n = 133 \<or> n = 160)"

definition strip :: "string \<Rightarrow> string" where
  "strip s = rev (dropWhile isspace (rev (dropWhile isspace s)))"

text \<open>
  Dictionaries with string keys keep their insertion order, so they are association
  lists: \<open>keys\<close>, \<open>d[k]\<close> (raising \<open>KeyError\<close>) and \<open>repr\<close> of a list of keys, as the
  f-strings of the error messages print it. The keys of this program hold no quote,
  backslash or control character, for which \<open>repr\<close> puts the key between single quotes.
\<close>

definition keys :: "(string \<times> 'v) list \<Rightarrow> string list" where
  "keys d = map fst d"

definition getitem :: "(string \<times> 'v) list \<Rightarrow> string \<Rightarrow> exn + 'v" where
  "getitem d k = (case map_of d k of None \<Rightarrow> Inl (KeyError k) | Some v \<Rightarrow> Inr v)"

fun join :: "string \<Rightarrow> string list \<Rightarrow> string" where
  "join sep [] = []"
| "join sep [x] = x"
| "join sep (x # y # ys) = x @ sep @ join sep (y # ys)"

definition repr_list :: "string list \<Rightarrow> string" where
  "repr_list ks = ''['' @ join '', '' (map (\<lambda>k. [CHR 0x27] @ k @ [CHR 0x27]) ks) @ '']''"


section \<open>caption.py: the model catalogues and the style table\<close>

record model_info =
  name :: string
  cost :: rat
  description :: string

definition CLAUDE_MODELS :: "(string \<times> model_info) list" where
  "CLAUDE_MODELS =
     [(''haiku'', \<lparr>name = ''claude-3-haiku-20240307'', cost = 1 / 1000,
                   description = ''Fast and affordable''\<rparr>),
      (''sonnet'', \<lparr>name = ''claude-3-5-sonnet-20241022'', cost = 3 / 1000,
                    description = ''Best balance''\<rparr>),
      (''opus'', \<lparr>name = ''claude-opus-4-5-20251101'', cost = 15 / 1000,
                  description = ''Highest quality''\<rparr>)]"

definition OPENAI_MODELS :: "(string \<times> model_info) list" where
  "OPENAI_MODELS =
     [(''gpt-4o'', \<lparr>name = ''gpt-4o'', cost = 5 / 1000,
                    description = ''Latest GPT-4 with vision''\<rparr>),
      (''gpt-4o-mini'', \<lparr>name = ''gpt-4o-mini'', cost = 15 / 100000,
                         description = ''Fast and affordable GPT-4''\<rparr>),
      (''gpt-4-turbo'', \<lparr>name = ''gpt-4-turbo'', cost = 1 / 100,
                         description = ''Previous GPT-4 Turbo''\<rparr>)]"

definition STYLES :: "(string \<times> string) list" where
  "STYLES =
     [(''descriptive'', ''Write a 2-3 sentence professional caption for this image.''),
      (''social'',
         ''Generate an engaging, but straightforward caption for Instagram using the image and metadata. Follow these guidelines:\<newline>'' @
         ''- First line should be descriptive of what the subject is if known\<newline>'' @
         ''- Use a masculine voice and avoid excessively flowery language\<newline>'' @
         ''- Use any location data if available\<newline>'' @
         ''- Append the caption with up to 8 hashtags that are likely to drive traffic and engagement\<newline>'' @
         ''- Keep the tone engaging but direct''),
      (''minimal'', ''Write a brief one-sentence caption.''),
      (''artistic'', ''Write a poetic, evocative caption.''),
      (''documentary'', ''Write a factual, journalistic caption.''),
      (''travel'', ''Write a travel photography caption emphasizing the location.'')]"


section \<open>caption.py: the generator, its collaborators and the trace of a call\<close>

text \<open>
  The client handle that \<open>__init__\<close> stores: \<open>anthropic.Anthropic\<close> has \<open>messages.create\<close>,
  \<open>openai.OpenAI\<close> has \<open>chat.completions.create\<close>; asking one for the other's attribute
  raises \<open>AttributeError\<close>.
\<close>

datatype client = Anthropic string | OpenAI string

record generator =
  provider :: string
  api_key :: string
  client :: client
  models :: "(string \<times> model_info) list"

text \<open>The content blocks of the single user message, and the request of either provider.\<close>

datatype content_block =
    Image_base64 string string
  | Image_url string
  | Text string

record message =
  role :: string
  content :: "content_block list"

record request =
  model :: string
  max_tokens :: int
  messages :: "message list"

text \<open>
  A block of a Claude response either has a \<open>text\<close> attribute or not; the message of an
  OpenAI choice has a \<open>content\<close> that is a string or \<open>None\<close>.
\<close>

datatype response_block = TextBlock string | OtherBlock

text \<open>
  What lies outside the program: the outcome of \<open>_prepare_image\<close> on a path (it is made
  of Pillow, io and base64 calls only: decode, convert to RGB, thumbnail to 1600 by
  1600, JPEG at quality 85, base64), and the answers of the two remote endpoints.
\<close>

record world =
  prepare_image :: "string \<Rightarrow> exn + string"
  messages_create :: "request \<Rightarrow> exn + response_block list"
  chat_completions_create :: "request \<Rightarrow> exn + string option list"

text \<open>The observable steps of a call, in the order they happen.\<close>

datatype event =
    PrepareImage string
  | MessagesCreate request
  | ChatCompletionsCreate request

type_synonym 'a run = "event list \<times> (exn + 'a)"

definition and_then :: "'a run \<Rightarrow> ('a \<Rightarrow> 'b run) \<Rightarrow> 'b run" where
  "and_then m f =
     (case m of
        (t, Inl e) \<Rightarrow> (t, Inl e)
      | (t, Inr x) \<Rightarrow> (case f x of (t', r) \<Rightarrow> (t @ t', r)))"

definition pure :: "exn + 'a \<Rightarrow> 'a run" where
  "pure r = ([], r)"

definition requests :: "event list \<Rightarrow> request list" where
  "requests t =
     concat (map (\<lambda>e. case e of PrepareImage _ \<Rightarrow> [] | MessagesCreate r \<Rightarrow> [r]
                              | ChatCompletionsCreate r \<Rightarrow> [r]) t)"

definition preparations :: "event list \<Rightarrow> string list" where
  "preparations t =
     concat (map (\<lambda>e. case e of PrepareImage p \<Rightarrow> [p] | MessagesCreate _ \<Rightarrow> []
                              | ChatCompletionsCreate _ \<Rightarrow> []) t)"

subsection \<open>\<open>__init__\<close>\<close>

definition init :: "string option \<Rightarrow> string \<Rightarrow> (string \<rightharpoonup> string) \<Rightarrow> exn + generator" where
  "init key prov environ =
     (let p = lower prov in
      if p = ''claude'' then
        (let k = py_or key (environ ''ANTHROPIC_API_KEY'') in
         case k of
           None \<Rightarrow> Inl (ValueError ''Anthropic API key required (set ANTHROPIC_API_KEY)'')
         | Some s \<Rightarrow>
             if s = [] then Inl (ValueError ''Anthropic API key required (set ANTHROPIC_API_KEY)'')
             else Inr \<lparr>provider = p, api_key = s, client = Anthropic s, models = CLAUDE_MODELS\<rparr>)
      else if p = ''openai'' then
        (let k = py_or key (environ ''OPENAI_API_KEY'') in
         case k of
           None \<Rightarrow> Inl (ValueError ''OpenAI API key required (set OPENAI_API_KEY)'')
         | Some s \<Rightarrow>
             if s = [] then Inl (ValueError ''OpenAI API key required (set OPENAI_API_KEY)'')
             else Inr \<lparr>provider = p, api_key = s, client = OpenAI s, models = OPENAI_MODELS\<rparr>)
      else Inl (ValueError (''Invalid provider: '' @ prov @ ''. Must be 'claude' or 'openai'' @ [CHR 0x27])))"

subsection \<open>Prompt, requests and response extraction\<close>

text \<open>
  Lines 130 to 132 and 171 to 173 are the same three lines:
  \<open>STYLES.get(style, STYLES['descriptive'])\<close>, whose default is itself a subscript, then
  the location sentence after a blank line when it is truthy.
\<close>

definition build_prompt :: "string \<Rightarrow> string option \<Rightarrow> exn + string" where
  "build_prompt style location_context =
     (case getitem STYLES ''descriptive'' of
        Inl e \<Rightarrow> Inl e
      | Inr dflt \<Rightarrow>
          (let prompt = (case map_of STYLES style of None \<Rightarrow> dflt | Some t \<Rightarrow> t) in
           case location_context of
             None \<Rightarrow> Inr prompt
           | Some loc \<Rightarrow> if loc \<noteq> [] then Inr (prompt @ ''\<newline>\<newline>'' @ loc) else Inr prompt))"

definition claude_request :: "string \<Rightarrow> string \<Rightarrow> string \<Rightarrow> request" where
  "claude_request model_name image_base64 prompt =
     \<lparr>model = model_name, max_tokens = 300,
      messages = [\<lparr>role = ''user'',
                   content = [Image_base64 ''image/jpeg'' image_base64, Text prompt]\<rparr>]\<rparr>"

definition openai_request :: "string \<Rightarrow> string \<Rightarrow> string \<Rightarrow> request" where
  "openai_request model_name image_base64 prompt =
     \<lparr>model = model_name, max_tokens = 300,
      messages = [\<lparr>role = ''user'',
                   content = [Image_url (''data:image/jpeg;base64,'' @ image_base64),
                              Text prompt]\<rparr>]\<rparr>"

text \<open>\<open>response.content[0].text.strip()\<close>\<close>

definition claude_text :: "response_block list \<Rightarrow> exn + string" where
  "claude_text response =
     (case response of
        [] \<Rightarrow> Inl IndexError
      | TextBlock t # _ \<Rightarrow> Inr (strip t)
      | OtherBlock # _ \<Rightarrow> Inl AttributeError)"

text \<open>\<open>response.choices[0].message.content.strip()\<close>\<close>

definition openai_text :: "string option list \<Rightarrow> exn + string" where
  "openai_text choices =
     (case choices of
        [] \<Rightarrow> Inl IndexError
      | Some t # _ \<Rightarrow> Inr (strip t)
      | None # _ \<Rightarrow> Inl AttributeError)"

subsection \<open>\<open>generate\<close> and the two provider paths\<close>

definition generate_claude ::
  "generator \<Rightarrow> world \<Rightarrow> string \<Rightarrow> string \<Rightarrow> string option \<Rightarrow> string option \<Rightarrow> string run" where
  "generate_claude self w image_path style model_key location_context =
     (let mk = (case model_key of
                  None \<Rightarrow> if style = ''social'' then ''opus'' else ''haiku''
                | Some m \<Rightarrow> m) in
      if mk \<notin> set (keys CLAUDE_MODELS) then
        pure (Inl (ValueError (''Invalid Claude model: '' @ mk @ ''. Choose from '' @
                               repr_list (keys CLAUDE_MODELS))))
      else
        and_then ([PrepareImage image_path], prepare_image w image_path) (\<lambda>image_base64.
        and_then (pure (build_prompt style location_context)) (\<lambda>prompt.
        and_then (pure (case client self of Anthropic _ \<Rightarrow> Inr () | OpenAI _ \<Rightarrow> Inl AttributeError)) (\<lambda>_.
        and_then (pure (getitem CLAUDE_MODELS mk)) (\<lambda>info.
        (let req = claude_request (name info) image_base64 prompt in
         and_then ([MessagesCreate req], messages_create w req) (\<lambda>response.
         pure (claude_text response))))))))"

definition generate_openai ::
  "generator \<Rightarrow> world \<Rightarrow> string \<Rightarrow> string \<Rightarrow> string option \<Rightarrow> string option \<Rightarrow> string run" where
  "generate_openai self w image_path style model_key location_context =
     (let mk = (case model_key of
                  None \<Rightarrow> if style = ''social'' then ''gpt-4o'' else ''gpt-4o-mini''
                | Some m \<Rightarrow> m) in
      if mk \<notin> set (keys OPENAI_MODELS) then
        pure (Inl (ValueError (''Invalid OpenAI model: '' @ mk @ ''. Choose from '' @
                               repr_list (keys OPENAI_MODELS))))
      else
        and_then ([PrepareImage image_path], prepare_image w image_path) (\<lambda>image_base64.
        and_then (pure (build_prompt style location_context)) (\<lambda>prompt.
        and_then (pure (case client self of OpenAI _ \<Rightarrow> Inr () | Anthropic _ \<Rightarrow> Inl AttributeError)) (\<lambda>_.
        and_then (pure (getitem OPENAI_MODELS mk)) (\<lambda>info.
        (let req = openai_request (name info) image_base64 prompt in
         and_then ([ChatCompletionsCreate req], chat_completions_create w req) (\<lambda>response.
         pure (openai_text response))))))))"

definition generate ::
  "generator \<Rightarrow> world \<Rightarrow> string \<Rightarrow> string \<Rightarrow> string option \<Rightarrow> string option \<Rightarrow> string run" where
  "generate self w image_path style model_key location_context =
     (if provider self = ''claude''
      then generate_claude self w image_path style model_key location_context
      else generate_openai self w image_path style model_key location_context)"

text \<open>
  The text blocks that a request carries, in order: the prompt as the provider sees it.
\<close>

definition texts :: "request \<Rightarrow> string list" where
  "texts r =
     concat (map (\<lambda>m. concat (map (\<lambda>b. case b of Text t \<Rightarrow> [t] | Image_base64 _ _ \<Rightarrow> []
                                            | Image_url _ \<Rightarrow> []) (content m))) (messages r))"


section \<open>gps.py: reverse geocoding\<close>

text \<open>
  What \<open>_parse_location\<close> reads of a geopy \<open>Location\<close>: the \<open>address\<close> entry of its
  \<open>raw\<close> dictionary (absent, or a dictionary of strings) and its \<open>address\<close> string.
\<close>

record location =
  raw_address :: "(string \<rightharpoonup> string) option"
  address :: string

record parsed_location =
  formatted :: string
  city :: "string option"
  state :: "string option"
  country :: "string option"
  full_address :: string

text \<open>
  \<open>if city: parts.append(city)\<close> and its two siblings: a truthy value adds one part.
\<close>

definition part :: "string option \<Rightarrow> string list" where
  "part v = (case v of None \<Rightarrow> [] | Some s \<Rightarrow> if s \<noteq> [] then [s] else [])"

definition parse_location :: "location \<Rightarrow> parsed_location" where
  "parse_location loc =
     (let addr = (case raw_address loc of None \<Rightarrow> Map.empty | Some a \<Rightarrow> a);
          cty = py_or (py_or (py_or (addr ''city'') (addr ''town'')) (addr ''village''))
                      (addr ''hamlet'');
          parts = part cty @ part (addr ''state'') @ part (addr ''country'')
      in \<lparr>formatted = (if parts \<noteq> [] then join '', '' parts else address loc),
          city = cty,
          state = addr ''state'',
          country = addr ''country'',
          full_address = address loc\<rparr>)"

text \<open>
  One call of \<open>self.geolocator.reverse\<close>: it returns a location (an object that is
  always truthy) or \<open>None\<close>, or it raises.
  \<open>GeocoderTimedOut\<close> is the timeout; \<open>GeocoderServiceError\<close> stands for every other
  instance of that class, which the \<open>except\<close> clause of lines 66 to 68 catches too;
  \<open>OtherException e\<close> is any exception outside that class.
\<close>

datatype geo_outcome =
    Found location
  | NotFound
  | GeocoderTimedOut
  | GeocoderServiceError
  | OtherException string

text \<open>
  The steps of \<open>reverse_geocode\<close> that the outside sees: a call of the service and a
  \<open>time.sleep\<close> of so many seconds.
\<close>

datatype geo_event = Reverse | Sleep nat

type_synonym 'a geo_run = "geo_event list \<times> (exn + 'a)"

definition after :: "geo_event list \<Rightarrow> 'a geo_run \<Rightarrow> 'a geo_run" where
  "after t m = (t @ fst m, snd m)"

text \<open>
  \<open>range(retries)\<close>: empty when \<open>retries\<close> is zero or negative.
\<close>

definition py_range :: "int \<Rightarrow> int list" where
  "py_range n = map int [0..<nat n]"

text \<open>
  The \<open>for\<close> loop of lines 55 to 68 over the remaining attempt numbers; \<open>n\<close> counts the
  calls already made, so that the service may answer each call differently. A location
  returns at once, \<open>None\<close> goes on to the next attempt without sleeping, a caught
  exception sleeps one second unless the attempt is the last one, and any other
  exception leaves the function. Running out of attempts is line 70, \<open>return None\<close>.
\<close>

fun attempts ::
  "(nat \<Rightarrow> geo_outcome) \<Rightarrow> int \<Rightarrow> int list \<Rightarrow> nat \<Rightarrow> parsed_location option geo_run" where
  "attempts reverse retries [] n = ([], Inr None)"
| "attempts reverse retries (attempt # rest) n =
     (case reverse n of
        Found loc \<Rightarrow> ([Reverse], Inr (Some (parse_location loc)))
      | NotFound \<Rightarrow> after [Reverse] (attempts reverse retries rest (Suc n))
      | GeocoderTimedOut \<Rightarrow>
          after (if attempt < retries - 1 then [Reverse, Sleep 1] else [Reverse])
                (attempts reverse retries rest (Suc n))
      | GeocoderServiceError \<Rightarrow>
          after (if attempt < retries - 1 then [Reverse, Sleep 1] else [Reverse])
                (attempts reverse retries rest (Suc n))
      | OtherException e \<Rightarrow> ([Reverse], Inl (Raised e)))"

text \<open>
  The coordinates are floats that only go into the query string, so their type is left
  open; the geolocator is the service as seen from the program: coordinates and call
  number to outcome.
\<close>

definition reverse_geocode ::
  "('c \<Rightarrow> 'c \<Rightarrow> nat \<Rightarrow> geo_outcome) \<Rightarrow> 'c \<Rightarrow> 'c \<Rightarrow> int \<Rightarrow> parsed_location option geo_run" where
  "reverse_geocode geolocator latitude longitude retries =
     attempts (geolocator latitude longitude) retries (py_range retries) 0"


section \<open>caption.py: the size of the prepared image\<close>

text \<open>
  Modelled from the spec: \<open>Image.thumbnail\<close>, the Pillow routine that line 203 of
  \<open>_prepare_image\<close> calls and that is not under src/. Section 4.2, step 3 of the spec gives
  its contract (downscale, preserving aspect ratio, so that neither dimension exceeds the
  bound; an image already within bounds is left at its native resolution). The
  definitions below are the size rule by which Pillow meets it: the image is untouched
  when the requested box covers it; otherwise the side that the box limits takes the
  box's value, and the other side is the floor or the ceiling of its proportional value,
  whichever keeps the aspect ratio closer (the floor on a tie), and at least 1. Pillow
  evaluates the ratios in floating point; here they are exact rationals.
\<close>

definition round_aspect :: "rat \<Rightarrow> (int \<Rightarrow> rat) \<Rightarrow> int" where
  "round_aspect number key =
     max (if key \<lfloor>number\<rfloor> \<le> key \<lceil>number\<rceil> then \<lfloor>number\<rfloor> else \<lceil>number\<rceil>) 1"

definition thumbnail :: "int \<times> int \<Rightarrow> int \<times> int \<Rightarrow> int \<times> int" where
  "thumbnail size_wh provided =
     (let width = fst size_wh; height = snd size_wh; x = fst provided; y = snd provided in
      if x \<ge> width \<and> y \<ge> height then (width, height)
      else
        (let aspect = of_int width / of_int height in
         if of_int x / of_int y \<ge> aspect
         then (round_aspect (of_int y * aspect) (\<lambda>n. \<bar>aspect - of_int n / of_int y\<bar>), y)
         else (x, round_aspect (of_int x / aspect)
                    (\<lambda>n. if n = 0 then 0 else \<bar>aspect - of_int x / of_int n\<bar>))))"

text \<open>
  The size of the image that \<open>_prepare_image\<close> encodes, from the size of the decoded
  image: \<open>convert('RGB')\<close> and the JPEG encoding keep the size, so line 203,
  \<open>img.thumbnail((1600, 1600), ...)\<close>, is the only step that changes it.
\<close>

definition prepared_size :: "int \<times> int \<Rightarrow> int \<times> int" where
  "prepared_size size_wh = thumbnail size_wh (1600, 1600)"


section \<open>Capitalisation variants of a name\<close>

text \<open>
  The notion that claim C10 speaks of, stated without \<open>str.lower\<close>: \<open>s\<close> is a
  capitalisation variant of a lower-case ASCII name when it has the same length and each
  of its characters is the name's character or that character's capital, whose code is
  smaller by 32.
\<close>

definition capitalization_variant :: "string \<Rightarrow> string \<Rightarrow> bool" where
  "capitalization_variant s target =
     list_all2 (\<lambda>c d. c = d \<or> (of_char c :: nat) + 32 = of_char d) s target"


section \<open>Sample inputs\<close>

text \<open>
  Concrete collaborators on which the theorems below are exercised: a world where every
  image can be prepared and both endpoints answer, a world where no image can be read
  and no endpoint can be reached, the two generators that \<open>__init__\<close> builds, a geocoding
  service that times out for valid coordinates and rejects a latitude beyond 90 degrees
  with a \<open>ValueError\<close>, and one that fails once and then finds Oslo.
\<close>

definition sample_world :: world where
  "sample_world =
     \<lparr>prepare_image = (\<lambda>p. Inr ''QUJD''),
      messages_create = (\<lambda>r. Inr [TextBlock ''  A quiet harbour at dawn.\<newline>'']),
      chat_completions_create = (\<lambda>r. Inr [Some '' Boats at rest. ''])\<rparr>"

definition unreadable_world :: world where
  "unreadable_world =
     \<lparr>prepare_image = (\<lambda>p. Inl (Raised ''FileNotFoundError'')),
      messages_create = (\<lambda>r. Inl (Raised ''APIConnectionError'')),
      chat_completions_create = (\<lambda>r. Inl (Raised ''APIConnectionError''))\<rparr>"

definition claude_generator :: generator where
  "claude_generator =
     \<lparr>provider = ''claude'', api_key = ''sk-test'', client = Anthropic ''sk-test'',
      models = CLAUDE_MODELS\<rparr>"

definition openai_generator :: generator where
  "openai_generator =
     \<lparr>provider = ''openai'', api_key = ''sk-test'', client = OpenAI ''sk-test'',
      models = OPENAI_MODELS\<rparr>"

definition rejecting_geolocator :: "rat \<Rightarrow> rat \<Rightarrow> nat \<Rightarrow> geo_outcome" where
  "rejecting_geolocator latitude longitude n =
     (if \<bar>latitude\<bar> > 90 then OtherException ''ValueError'' else GeocoderTimedOut)"

definition oslo :: location where
  "oslo = \<lparr>raw_address = Some [''city'' \<mapsto> ''Oslo'', ''country'' \<mapsto> ''Norway''],
           address = ''Oslo, Norway''\<rparr>"

definition flaky_geolocator :: "rat \<Rightarrow> rat \<Rightarrow> nat \<Rightarrow> geo_outcome" where
  "flaky_geolocator latitude longitude n = (if n = 0 then GeocoderServiceError else Found oslo)"


section \<open>Facts about the model\<close>

lemma keys_CLAUDE_MODELS: "keys CLAUDE_MODELS = [''haiku'', ''sonnet'', ''opus'']"
  by (simp add: keys_def CLAUDE_MODELS_def)

lemma keys_OPENAI_MODELS: "keys OPENAI_MODELS = [''gpt-4o'', ''gpt-4o-mini'', ''gpt-4-turbo'']"
  by (simp add: keys_def OPENAI_MODELS_def)

lemma keys_STYLES:
  "keys STYLES = [''descriptive'', ''social'', ''minimal'', ''artistic'', ''documentary'', ''travel'']"
  by (simp add: keys_def STYLES_def)

lemma getitem_keys: "k \<in> set (keys d) \<Longrightarrow> \<exists>v. getitem d k = Inr v \<and> map_of d k = Some v"
  unfolding keys_def getitem_def
  by (cases "map_of d k") (auto simp: map_of_eq_None_iff)

lemma map_of_keys: "map_of d k = None \<longleftrightarrow> k \<notin> set (keys d)"
  by (simp add: keys_def map_of_eq_None_iff)

text \<open>
  A generator that \<open>__init__\<close> returns is bound to one of the two providers, with that
  provider's client and catalogue.
\<close>

lemma init_cases:
  assumes "init key prov environ = Inr g"
  shows "(provider g = ''claude'' \<and> (\<exists>s. client g = Anthropic s) \<and> models g = CLAUDE_MODELS)
       \<or> (provider g = ''openai'' \<and> (\<exists>s. client g = OpenAI s) \<and> models g = OPENAI_MODELS)"
  using assms unfolding init_def Let_def
  by (auto split: if_splits option.splits)

lemma repr_claude: "repr_list (keys CLAUDE_MODELS) = ''['haiku', 'sonnet', 'opus']''"
  by (simp add: keys_CLAUDE_MODELS repr_list_def)

lemma repr_openai: "repr_list (keys OPENAI_MODELS) = ''['gpt-4o', 'gpt-4o-mini', 'gpt-4-turbo']''"
  by (simp add: keys_OPENAI_MODELS repr_list_def)

lemma descriptive_template:
  "getitem STYLES ''descriptive'' = Inr ''Write a 2-3 sentence professional caption for this image.''"
  by (simp add: getitem_def STYLES_def)

text \<open>
  The prompt lookup always succeeds, since \<open>descriptive\<close> is a key of the style table.
\<close>

lemma build_prompt_eq:
  "build_prompt style location_context =
     Inr ((case map_of STYLES style of
             None \<Rightarrow> ''Write a 2-3 sentence professional caption for this image.''
           | Some t \<Rightarrow> t) @
          (if truthy location_context then ''\<newline>\<newline>'' @ the location_context else []))"
  by (simp add: build_prompt_def descriptive_template truthy_def split: option.splits)

lemma generate_claude_invalid:
  "mk \<notin> set (keys CLAUDE_MODELS) \<Longrightarrow>
   generate_claude g w path style (Some mk) loc =
     ([], Inl (ValueError (''Invalid Claude model: '' @ mk @ ''. Choose from '' @
                           repr_list (keys CLAUDE_MODELS))))"
  by (simp add: generate_claude_def pure_def)

lemma generate_openai_invalid:
  "mk \<notin> set (keys OPENAI_MODELS) \<Longrightarrow>
   generate_openai g w path style (Some mk) loc =
     ([], Inl (ValueError (''Invalid OpenAI model: '' @ mk @ ''. Choose from '' @
                           repr_list (keys OPENAI_MODELS))))"
  by (simp add: generate_openai_def pure_def)

lemma generate_claude_valid:
  assumes "client g = Anthropic s"
    and "mk = (case model_key of None \<Rightarrow> if style = ''social'' then ''opus'' else ''haiku'' | Some m \<Rightarrow> m)"
    and "map_of CLAUDE_MODELS mk = Some info"
    and "build_prompt style loc = Inr prompt"
  shows "generate_claude g w path style model_key loc =
     (case prepare_image w path of
        Inl e \<Rightarrow> ([PrepareImage path], Inl e)
      | Inr img \<Rightarrow>
         ([PrepareImage path, MessagesCreate (claude_request (name info) img prompt)],
          case messages_create w (claude_request (name info) img prompt) of
            Inl e \<Rightarrow> Inl e | Inr response \<Rightarrow> claude_text response))"
proof -
  have k: "mk \<in> set (keys CLAUDE_MODELS)"
    using assms(3) map_of_keys [of CLAUDE_MODELS mk] by auto
  have gi: "getitem CLAUDE_MODELS mk = Inr info"
    using assms(3) by (simp add: getitem_def)
  show ?thesis
    unfolding generate_claude_def assms(2) [symmetric] Let_def
    using k gi assms(1,4)
    by (cases "prepare_image w path";
        cases "messages_create w (claude_request (name info) (projr (prepare_image w path)) prompt)")
       (simp_all add: and_then_def pure_def)
qed

lemma generate_openai_valid:
  assumes "client g = OpenAI s"
    and "mk = (case model_key of None \<Rightarrow> if style = ''social'' then ''gpt-4o'' else ''gpt-4o-mini'' | Some m \<Rightarrow> m)"
    and "map_of OPENAI_MODELS mk = Some info"
    and "build_prompt style loc = Inr prompt"
  shows "generate_openai g w path style model_key loc =
     (case prepare_image w path of
        Inl e \<Rightarrow> ([PrepareImage path], Inl e)
      | Inr img \<Rightarrow>
         ([PrepareImage path, ChatCompletionsCreate (openai_request (name info) img prompt)],
          case chat_completions_create w (openai_request (name info) img prompt) of
            Inl e \<Rightarrow> Inl e | Inr response \<Rightarrow> openai_text response))"
proof -
  have k: "mk \<in> set (keys OPENAI_MODELS)"
    using assms(3) map_of_keys [of OPENAI_MODELS mk] by auto
  have gi: "getitem OPENAI_MODELS mk = Inr info"
    using assms(3) by (simp add: getitem_def)
  show ?thesis
    unfolding generate_openai_def assms(2) [symmetric] Let_def
    using k gi assms(1,4)
    by (cases "prepare_image w path";
        cases "chat_completions_create w (openai_request (name info) (projr (prepare_image w path)) prompt)")
       (simp_all add: and_then_def pure_def)
qed

lemma lower_Claude: "lower ''Claude'' = ''claude''"
  by code_simp

lemma lower_OPENAI: "lower ''OPENAI'' = ''openai''"
  by code_simp

lemma init_Claude: "init (Some ''sk-test'') ''Claude'' Map.empty = Inr claude_generator"
  by (simp add: init_def lower_Claude py_or_def truthy_def claude_generator_def)

lemma init_OPENAI: "init None ''OPENAI'' [''OPENAI_API_KEY'' \<mapsto> ''sk-test''] = Inr openai_generator"
  by (simp add: init_def lower_OPENAI py_or_def truthy_def openai_generator_def)

text \<open>
  \<open>strip\<close> removes a whitespace prefix and a whitespace suffix and nothing else, and what
  it leaves neither starts nor ends with whitespace.
\<close>

lemma strip_trims:
  "\<exists>pre post. t = pre @ strip t @ post \<and> list_all isspace pre \<and> list_all isspace post \<and>
     (strip t = [] \<or> (\<not> isspace (hd (strip t)) \<and> \<not> isspace (last (strip t))))"
proof -
  define u where "u = dropWhile isspace t"
  define pre where "pre = takeWhile isspace t"
  define post where "post = rev (takeWhile isspace (rev u))"
  have s: "strip t = rev (dropWhile isspace (rev u))"
    by (simp add: strip_def u_def)
  have "u = rev (takeWhile isspace (rev u) @ dropWhile isspace (rev u))"
    by simp
  also have "\<dots> = rev (dropWhile isspace (rev u)) @ rev (takeWhile isspace (rev u))"
    by (rule rev_append)
  finally have u: "u = strip t @ post"
    unfolding s post_def .
  have t: "t = pre @ strip t @ post"
    by (subst u [symmetric]) (simp add: pre_def u_def)
  have p1: "list_all isspace pre"
    by (simp add: pre_def list_all_iff) (meson set_takeWhileD)
  have p2: "list_all isspace post"
    by (simp add: post_def list_all_iff) (meson set_takeWhileD)
  have ends: "\<not> isspace (hd (strip t)) \<and> \<not> isspace (last (strip t))" if ne: "strip t \<noteq> []"
  proof
    have "u \<noteq> []" using u ne by auto
    then have "\<not> isspace (hd u)" unfolding u_def by (rule hd_dropWhile)
    moreover have "hd u = hd (strip t)" using u ne by (metis hd_append2)
    ultimately show "\<not> isspace (hd (strip t))" by simp
    have "dropWhile isspace (rev u) \<noteq> []" using ne s by auto
    then have "\<not> isspace (hd (dropWhile isspace (rev u)))" by (rule hd_dropWhile)
    moreover have "last (strip t) = hd (dropWhile isspace (rev u))"
      unfolding s using \<open>dropWhile isspace (rev u) \<noteq> []\<close> by (simp add: last_rev)
    ultimately show "\<not> isspace (last (strip t))" by simp
  qed
  show ?thesis using t p1 p2 ends by blast
qed

lemma generate_init_claude:
  assumes "provider g = ''claude''" and "client g = Anthropic s"
    and "case mk of None \<Rightarrow> True | Some m \<Rightarrow> m \<in> set (keys CLAUDE_MODELS)"
  shows "\<exists>info. map_of CLAUDE_MODELS
                  (case mk of None \<Rightarrow> if style = ''social'' then ''opus'' else ''haiku''
                            | Some m \<Rightarrow> m) = Some info"
proof -
  have "(case mk of None \<Rightarrow> if style = ''social'' then ''opus'' else ''haiku'' | Some m \<Rightarrow> m)
          \<in> set (keys CLAUDE_MODELS)"
    using assms(3) by (cases mk) (simp_all add: keys_CLAUDE_MODELS)
  then show ?thesis using getitem_keys by blast
qed

lemma generate_init_openai:
  assumes "case mk of None \<Rightarrow> True | Some m \<Rightarrow> m \<in> set (keys OPENAI_MODELS)"
  shows "\<exists>info. map_of OPENAI_MODELS
                  (case mk of None \<Rightarrow> if style = ''social'' then ''gpt-4o'' else ''gpt-4o-mini''
                            | Some m \<Rightarrow> m) = Some info"
proof -
  have "(case mk of None \<Rightarrow> if style = ''social'' then ''gpt-4o'' else ''gpt-4o-mini'' | Some m \<Rightarrow> m)
          \<in> set (keys OPENAI_MODELS)"
    using assms by (cases mk) (simp_all add: keys_OPENAI_MODELS)
  then show ?thesis using getitem_keys by blast
qed

text \<open>
  The shape of every call whose model key passes validation, for a generator built by
  \<open>__init__\<close>: the image is prepared, and if that succeeds exactly one request goes out.
\<close>

lemma generate_valid:
  assumes i: "init key prov environ = Inr g"
    and v: "case mk of None \<Rightarrow> True | Some m \<Rightarrow> m \<in> set (keys (models g))"
  shows "\<exists>info prompt.
      map_of (models g)
        (case mk of
           None \<Rightarrow> if provider g = ''claude''
                   then (if style = ''social'' then ''opus'' else ''haiku'')
                   else (if style = ''social'' then ''gpt-4o'' else ''gpt-4o-mini'')
         | Some m \<Rightarrow> m) = Some info \<and>
      build_prompt style loc = Inr prompt \<and>
      generate g w path style mk loc =
        (case prepare_image w path of
           Inl e \<Rightarrow> ([PrepareImage path], Inl e)
         | Inr img \<Rightarrow>
             if provider g = ''claude''
             then ([PrepareImage path, MessagesCreate (claude_request (name info) img prompt)],
                   case messages_create w (claude_request (name info) img prompt) of
                     Inl e \<Rightarrow> Inl e | Inr response \<Rightarrow> claude_text response)
             else ([PrepareImage path, ChatCompletionsCreate (openai_request (name info) img prompt)],
                   case chat_completions_create w (openai_request (name info) img prompt) of
                     Inl e \<Rightarrow> Inl e | Inr response \<Rightarrow> openai_text response))"
proof -
  obtain prompt where p: "build_prompt style loc = Inr prompt"
    using build_prompt_eq by blast
  from init_cases [OF i] show ?thesis
  proof (elim disjE conjE exE)
    fix s assume c: "provider g = ''claude''" "client g = Anthropic s" "models g = CLAUDE_MODELS"
    have v': "case mk of None \<Rightarrow> True | Some m \<Rightarrow> m \<in> set (keys CLAUDE_MODELS)"
      using v unfolding c(3) .
    obtain info where m: "map_of CLAUDE_MODELS
        (case mk of None \<Rightarrow> if style = ''social'' then ''opus'' else ''haiku'' | Some m \<Rightarrow> m) = Some info"
      using generate_init_claude [OF c(1,2) v'] by blast
    have "generate g w path style mk loc = generate_claude g w path style mk loc"
      by (simp add: generate_def c(1))
    with generate_claude_valid [OF c(2) refl m p, of w path] m p c show ?thesis
      by (cases mk; cases "prepare_image w path") auto
  next
    fix s assume c: "provider g = ''openai''" "client g = OpenAI s" "models g = OPENAI_MODELS"
    have v': "case mk of None \<Rightarrow> True | Some m \<Rightarrow> m \<in> set (keys OPENAI_MODELS)"
      using v unfolding c(3) .
    obtain info where m: "map_of OPENAI_MODELS
        (case mk of None \<Rightarrow> if style = ''social'' then ''gpt-4o'' else ''gpt-4o-mini'' | Some m \<Rightarrow> m) = Some info"
      using generate_init_openai [OF v'] by blast
    have "generate g w path style mk loc = generate_openai g w path style mk loc"
      by (simp add: generate_def c(1))
    with generate_openai_valid [OF c(2) refl m p, of w path] m p c show ?thesis
      by (cases mk; cases "prepare_image w path") auto
  qed
qed

text \<open>
  An explicit key outside the catalogue ends the call before anything else happens.
\<close>

lemma generate_invalid_key:
  assumes "init key prov environ = Inr g" and "m \<notin> set (keys (models g))"
  shows "generate g w path style (Some m) loc =
           ([], Inl (ValueError (''Invalid '' @ (if provider g = ''claude'' then ''Claude'' else ''OpenAI'')
                                 @ '' model: '' @ m @ ''. Choose from '' @ repr_list (keys (models g)))))"
  using init_cases [OF assms(1)] assms(2)
  by (auto simp: generate_def generate_claude_invalid generate_openai_invalid)

lemma requests_two [simp]:
  "requests [PrepareImage p, MessagesCreate r] = [r]"
  "requests [PrepareImage p, ChatCompletionsCreate r] = [r]"
  "requests [PrepareImage p] = []" "requests [] = []"
  by (simp_all add: requests_def)

lemma preparations_two [simp]:
  "preparations [PrepareImage p, MessagesCreate r] = [p]"
  "preparations [PrepareImage p, ChatCompletionsCreate r] = [p]"
  "preparations [PrepareImage p] = [p]" "preparations [] = []"
  by (simp_all add: preparations_def)

lemma texts_requests [simp]:
  "texts (claude_request n img prompt) = [prompt]"
  "texts (openai_request n img prompt) = [prompt]"
  by (simp_all add: texts_def claude_request_def openai_request_def)

lemma request_fields [simp]:
  "model (claude_request n img prompt) = n" "max_tokens (claude_request n img prompt) = 300"
  "model (openai_request n img prompt) = n" "max_tokens (openai_request n img prompt) = 300"
  by (simp_all add: claude_request_def openai_request_def)

lemma strip_sample: "strip ''  A quiet harbour at dawn.\<newline>'' = ''A quiet harbour at dawn.''"
  by (simp add: strip_def isspace_def)

lemma upt_step: "k < m \<Longrightarrow> map int [k..<m] = int k # map int [Suc k..<m]"
  by (simp add: upt_conv_Cons)

text \<open>
  Three facts about the loop from call number \<open>k\<close> on, each by induction on the number of
  attempts left.
\<close>

lemma attempts_no_raise:
  "(\<And>n e. k \<le> n \<Longrightarrow> n < m \<Longrightarrow> reverse n \<noteq> OtherException e) \<Longrightarrow>
   \<exists>r. snd (attempts reverse retries (map int [k..<m]) k) = Inr r"
proof (induction "m - k" arbitrary: k)
  case 0
  then show ?case by simp
next
  case (Suc d)
  then have km: "k < m" by simp
  have ih: "\<exists>r. snd (attempts reverse retries (map int [Suc k..<m]) (Suc k)) = Inr r"
    using Suc(1) [of "Suc k"] Suc(2,3) by simp
  have ne: "\<forall>e. reverse k \<noteq> OtherException e" using Suc(3) [of k] km by simp
  show ?case
    using ih ne by (cases "reverse k") (auto simp: upt_step [OF km] after_def)
qed

lemma attempts_all_retryable:
  "m = nat retries \<Longrightarrow>
   (\<And>n. k \<le> n \<Longrightarrow> n < m \<Longrightarrow> reverse n = GeocoderTimedOut \<or> reverse n = GeocoderServiceError) \<Longrightarrow>
   snd (attempts reverse retries (map int [k..<m]) k) = Inr None \<and>
   count_list (fst (attempts reverse retries (map int [k..<m]) k)) Reverse = m - k \<and>
   count_list (fst (attempts reverse retries (map int [k..<m]) k)) (Sleep 1) = (m - 1) - k"
proof (induction "m - k" arbitrary: k)
  case 0
  then show ?case by simp
next
  case (Suc d)
  then have km: "k < m" by simp
  have ih: "snd (attempts reverse retries (map int [Suc k..<m]) (Suc k)) = Inr None \<and>
     count_list (fst (attempts reverse retries (map int [Suc k..<m]) (Suc k))) Reverse = m - Suc k \<and>
     count_list (fst (attempts reverse retries (map int [Suc k..<m]) (Suc k))) (Sleep 1) = (m - 1) - Suc k"
    using Suc(1) [of "Suc k"] Suc(2,3,4) by simp
  have r: "reverse k = GeocoderTimedOut \<or> reverse k = GeocoderServiceError"
    using Suc(4) [of k] km by simp
  have s: "(int k < retries - 1) = (Suc k < m)"
    using Suc(3) km by auto
  from r show ?case
    using ih km s by (auto simp: upt_step [OF km] after_def)
qed

lemma attempts_raise:
  "k \<le> j \<Longrightarrow> j < m \<Longrightarrow> reverse j = OtherException e \<Longrightarrow>
   (\<And>n. k \<le> n \<Longrightarrow> n < j \<Longrightarrow>
      reverse n = GeocoderTimedOut \<or> reverse n = GeocoderServiceError \<or> reverse n = NotFound) \<Longrightarrow>
   snd (attempts reverse retries (map int [k..<m]) k) = Inl (Raised e) \<and>
   count_list (fst (attempts reverse retries (map int [k..<m]) k)) Reverse = Suc (j - k)"
proof (induction "j - k" arbitrary: k)
  case 0
  then have "k = j" by simp
  then show ?case using 0 by (simp add: upt_step)
next
  case (Suc d)
  then have kj: "k < j" and km: "k < m" by simp_all
  have ih: "snd (attempts reverse retries (map int [Suc k..<m]) (Suc k)) = Inl (Raised e) \<and>
     count_list (fst (attempts reverse retries (map int [Suc k..<m]) (Suc k))) Reverse = Suc (j - Suc k)"
    using Suc(1) [of "Suc k"] Suc(2-) by simp
  have r: "reverse k = GeocoderTimedOut \<or> reverse k = GeocoderServiceError \<or> reverse k = NotFound"
    using Suc(6) [of k] kj by simp
  from r show ?case
    using ih kj by (auto simp: upt_step [OF km] after_def Suc_diff_Suc)
qed

text \<open>
  \<open>str.lower\<close> sends exactly two characters to a lower-case ASCII letter: the letter
  itself and its capital. Hence a string lower-cases to such a name exactly when it is
  a capitalisation variant of it.
\<close>

lemma lower_char_letter:
  assumes "97 \<le> (of_char d :: nat)" and "(of_char d :: nat) \<le> 122"
  shows "lower_char c = d \<longleftrightarrow> c = d \<or> (of_char c :: nat) + 32 = of_char d"
proof -
  have b: "(of_char c :: nat) < 256"
    by (metis of_char_mod_256 mod_less_divisor zero_less_numeral)
  consider (up) "65 \<le> (of_char c :: nat)" "(of_char c :: nat) \<le> 90"
    | (lat) "192 \<le> (of_char c :: nat)" "(of_char c :: nat) \<le> 222" "(of_char c :: nat) \<noteq> 215"
    | (other) "\<not> ((65 \<le> (of_char c :: nat) \<and> (of_char c :: nat) \<le> 90) \<or>
                 (192 \<le> (of_char c :: nat) \<and> (of_char c :: nat) \<le> 222 \<and> (of_char c :: nat) \<noteq> 215))"
    by blast
  then show ?thesis
  proof cases
    case up
    have l: "lower_char c = char_of ((of_char c :: nat) + 32)"
      using up by (simp add: lower_char_def Let_def)
    have "(char_of ((of_char c :: nat) + 32) = d) = ((of_char c :: nat) + 32 = of_char d)"
      using up by (simp add: char_of_eq_iff take_bit_eq_mod)
    moreover have "c \<noteq> d" using up assms by auto
    ultimately show ?thesis using l by simp
  next
    case lat
    have l: "lower_char c = char_of ((of_char c :: nat) + 32)"
      using lat by (simp add: lower_char_def Let_def)
    have "(char_of ((of_char c :: nat) + 32) = d) = ((of_char c :: nat) + 32 = of_char d)"
      using lat by (simp add: char_of_eq_iff take_bit_eq_mod)
    moreover have "c \<noteq> d" using lat assms by auto
    ultimately show ?thesis using l by simp
  next
    case other
    have l: "lower_char c = c"
      using other by (auto simp: lower_char_def Let_def)
    have "(of_char c :: nat) + 32 \<noteq> of_char d"
      using other assms by auto
    then show ?thesis using l by simp
  qed
qed

lemma lower_variant:
  "(\<forall>d \<in> set target. 97 \<le> (of_char d :: nat) \<and> (of_char d :: nat) \<le> 122) \<Longrightarrow>
   lower s = target \<longleftrightarrow> capitalization_variant s target"
proof (induction s arbitrary: target)
  case Nil
  then show ?case by (auto simp: lower_def capitalization_variant_def)
next
  case (Cons c s)
  show ?case
  proof (cases target)
    case Nil
    then show ?thesis by (simp add: lower_def capitalization_variant_def)
  next
    case (Cons d ds)
    have h: "lower_char c = d \<longleftrightarrow> c = d \<or> (of_char c :: nat) + 32 = of_char d"
      using Cons.prems Cons by (intro lower_char_letter) simp_all
    have t: "lower s = ds \<longleftrightarrow> capitalization_variant s ds"
      using Cons.prems Cons by (intro Cons.IH) simp
    show ?thesis
      using h t unfolding Cons
      by (simp add: lower_def capitalization_variant_def)
  qed
qed

lemma lower_eq_claude: "lower s = ''claude'' \<longleftrightarrow> capitalization_variant s ''claude''"
  by (rule lower_variant) simp

lemma lower_eq_openai: "lower s = ''openai'' \<longleftrightarrow> capitalization_variant s ''openai''"
  by (rule lower_variant) simp

text \<open>
  The rounded side is at least 1, at most the ceiling, and less than one pixel away from
  the proportional value.
\<close>

lemma round_aspect_bounds:
  assumes "0 < q"
  shows "1 \<le> round_aspect q key \<and> round_aspect q key \<le> \<lceil>q\<rceil> \<and>
         \<bar>of_int (round_aspect q key) - q\<bar> < 1"
proof -
  have c1: "1 \<le> \<lceil>q\<rceil>" using assms by (simp add: less_ceiling_iff)
  have f0: "0 \<le> \<lfloor>q\<rfloor>" using assms by simp
  have fl: "of_int \<lfloor>q\<rfloor> \<le> q" "q < of_int \<lfloor>q\<rfloor> + 1" by linarith+
  have ce: "q \<le> of_int \<lceil>q\<rceil>" "of_int \<lceil>q\<rceil> < q + 1" by linarith+
  have fc: "\<lfloor>q\<rfloor> \<le> \<lceil>q\<rceil>" by (rule floor_le_ceiling)
  have "round_aspect q key = max \<lfloor>q\<rfloor> 1 \<or> round_aspect q key = max \<lceil>q\<rceil> 1"
    by (simp add: round_aspect_def)
  then consider (floor) "round_aspect q key = max \<lfloor>q\<rfloor> 1" | (ceil) "round_aspect q key = max \<lceil>q\<rceil> 1"
    by blast
  then show ?thesis
  proof cases
    case floor
    show ?thesis
    proof (cases "1 \<le> \<lfloor>q\<rfloor>")
      case True
      then have "round_aspect q key = \<lfloor>q\<rfloor>" using floor by simp
      then show ?thesis using True fl fc by simp
    next
      case False
      then have z: "\<lfloor>q\<rfloor> = 0" using f0 by linarith
      then have r: "round_aspect q key = 1" using floor by simp
      have "q < 1" using fl(2) z by simp
      then show ?thesis using r c1 assms by simp
    qed
  next
    case ceil
    then have "round_aspect q key = \<lceil>q\<rceil>" using c1 by simp
    then show ?thesis using c1 ce by simp
  qed
qed

lemma prepared_within:
  "width \<le> 1600 \<Longrightarrow> height \<le> 1600 \<Longrightarrow> prepared_size (width, height) = (width, height)"
  by (simp add: prepared_size_def thumbnail_def)

lemma prepared_tall:
  assumes "1 \<le> width" and "width \<le> height" and "1600 < height"
  shows "\<exists>key. prepared_size (width, height) =
           (round_aspect (1600 * of_int width / of_int height) key, 1600)"
proof -
  have "(of_int width :: rat) / of_int height \<le> 1"
    using assms by (simp add: divide_le_eq_1)
  then show ?thesis
    using assms by (auto simp: prepared_size_def thumbnail_def Let_def)
qed

lemma prepared_wide:
  assumes "1 \<le> height" and "height < width" and "1600 < width"
  shows "\<exists>key. prepared_size (width, height) =
           (1600, round_aspect (1600 * of_int height / of_int width) key)"
proof -
  have "\<not> (of_int width :: rat) / of_int height \<le> 1"
    using assms by (simp add: divide_le_eq_1)
  then show ?thesis
    using assms by (auto simp: prepared_size_def thumbnail_def Let_def)
qed

lemma scaled_bounds:
  assumes "1 \<le> (a::int)" and "a \<le> b" and "1600 < b"
  shows "0 < (1600 * of_int a / of_int b :: rat)"
    and "\<lceil>1600 * of_int a / of_int b :: rat\<rceil> \<le> a"
    and "\<lceil>1600 * of_int a / of_int b :: rat\<rceil> \<le> 1600"
proof -
  have b: "0 < (of_int b :: rat)" using assms by simp
  show "0 < (1600 * of_int a / of_int b :: rat)" using assms b by simp
  have "1600 * (of_int a :: rat) \<le> of_int a * of_int b"
    using assms by (simp add: mult.commute [of "of_int a"] mult_right_mono)
  then have "(1600 * of_int a / of_int b :: rat) \<le> of_int a"
    using b by (simp add: pos_divide_le_eq)
  then show "\<lceil>1600 * of_int a / of_int b :: rat\<rceil> \<le> a"
    by (simp add: ceiling_le_iff)
  have "1600 * (of_int a :: rat) \<le> 1600 * of_int b"
    using assms by simp
  then have "(1600 * of_int a / of_int b :: rat) \<le> 1600"
    using b by (simp add: pos_divide_le_eq)
  then show "\<lceil>1600 * of_int a / of_int b :: rat\<rceil> \<le> 1600"
    by (simp add: ceiling_le_iff)
qed

text \<open>
  The exact traces of the loop: under failures that are caught, and up to the first
  exception that is not.
\<close>

lemma attempts_retryable_trace:
  "m = nat retries \<Longrightarrow>
   (\<And>n. k \<le> n \<Longrightarrow> n < m \<Longrightarrow> reverse n = GeocoderTimedOut \<or> reverse n = GeocoderServiceError) \<Longrightarrow>
   fst (attempts reverse retries (map int [k..<m]) k) =
     (if k < m then Reverse # concat (replicate (m - 1 - k) [Sleep 1, Reverse]) else [])"
proof (induction "m - k" arbitrary: k)
  case 0
  then show ?case by simp
next
  case (Suc d)
  then have km: "k < m" by simp
  have ih: "fst (attempts reverse retries (map int [Suc k..<m]) (Suc k)) =
     (if Suc k < m then Reverse # concat (replicate (m - 1 - Suc k) [Sleep 1, Reverse]) else [])"
    using Suc(1) [of "Suc k"] Suc(2,3,4) by simp
  have r: "reverse k = GeocoderTimedOut \<or> reverse k = GeocoderServiceError"
    using Suc(4) [of k] km by simp
  have s: "(int k < retries - 1) = (Suc k < m)"
    using Suc(3) km by auto
  show ?case
  proof (cases "Suc k < m")
    case True
    then have "m - 1 - k = Suc (m - 1 - Suc k)" by simp
    then show ?thesis
      using r ih km s True by (auto simp: upt_step [OF km] after_def)
  next
    case False
    then have "m - 1 - k = 0" using km by simp
    then show ?thesis
      using r ih km s False by (auto simp: upt_step [OF km] after_def)
  qed
qed

lemma attempts_raise_trace:
  "m = nat retries \<Longrightarrow> k \<le> j \<Longrightarrow> j < m \<Longrightarrow> reverse j = OtherException e \<Longrightarrow>
   (\<And>n. k \<le> n \<Longrightarrow> n < j \<Longrightarrow>
      reverse n = GeocoderTimedOut \<or> reverse n = GeocoderServiceError \<or> reverse n = NotFound) \<Longrightarrow>
   fst (attempts reverse retries (map int [k..<m]) k) =
     concat (map (\<lambda>n. if reverse n = NotFound then [Reverse] else [Reverse, Sleep 1]) [k..<j])
       @ [Reverse]"
proof (induction "j - k" arbitrary: k)
  case 0
  then have "k = j" by simp
  then show ?case using 0 by (simp add: upt_step)
next
  case (Suc d)
  then have kj: "k < j" and km: "k < m" by simp_all
  have ih: "fst (attempts reverse retries (map int [Suc k..<m]) (Suc k)) =
     concat (map (\<lambda>n. if reverse n = NotFound then [Reverse] else [Reverse, Sleep 1]) [Suc k..<j])
       @ [Reverse]"
    using Suc(1) [of "Suc k"] Suc(2-) by simp
  have r: "reverse k = GeocoderTimedOut \<or> reverse k = GeocoderServiceError \<or> reverse k = NotFound"
    using Suc(7) [of k] kj by simp
  have s: "int k < retries - 1"
    using Suc(3,5) kj by auto
  from r show ?case
    using ih kj s by (auto simp: upt_step [OF km] upt_conv_Cons [OF kj] after_def)
qed


section \<open>C1: style-aware default model\<close>

text \<open>
  Claim C1. For a generator of either provider and a call of \<open>generate\<close> with no explicit
  model key, the model that is resolved is the catalogue entry \<open>opus\<close> (claude) or
  \<open>gpt-4o\<close> (openai) when the style is \<open>social\<close>, and the entry \<open>haiku\<close> (claude) or
  \<open>gpt-4o-mini\<close> (openai) for every other style. The resolved key is observed where it
  leaves the program: whenever the image can be prepared, the one request that is issued
  names the remote identifier of exactly that catalogue entry.
\<close>

theorem default_model_by_style:
  assumes "init key prov environ = Inr g" and "prepare_image w path = Inr img"
  shows "(provider g = ''claude'' \<or> provider g = ''openai'') \<and>
         (\<exists>info. map_of (models g)
                    (if provider g = ''claude''
                     then (if style = ''social'' then ''opus'' else ''haiku'')
                     else (if style = ''social'' then ''gpt-4o'' else ''gpt-4o-mini'')) = Some info
                \<and> map model (requests (fst (generate g w path style None loc))) = [name info])"
proof
  show "provider g = ''claude'' \<or> provider g = ''openai''"
    using init_cases [OF assms(1)] by blast
  have v: "case None of None \<Rightarrow> True | Some m \<Rightarrow> m \<in> set (keys (models g))" by simp
  from generate_valid [OF assms(1) v, of style loc w path] assms(2)
  show "\<exists>info. map_of (models g)
                    (if provider g = ''claude''
                     then (if style = ''social'' then ''opus'' else ''haiku'')
                     else (if style = ''social'' then ''gpt-4o'' else ''gpt-4o-mini'')) = Some info
                \<and> map model (requests (fst (generate g w path style None loc))) = [name info]"
    by (cases "provider g = ''claude''") auto
qed

text \<open>
  C1 on the claude generator with style \<open>social\<close>: the request names the \<open>opus\<close> entry.
\<close>

theorem default_model_by_style_witness:
  "init (Some ''sk-test'') ''Claude'' Map.empty = Inr claude_generator \<and>
   prepare_image sample_world ''harbour.dng'' = Inr ''QUJD'' \<and>
   map model (requests (fst (generate claude_generator sample_world ''harbour.dng'' ''social'' None None)))
     = [''claude-opus-4-5-20251101'']"
proof -
  have p: "prepare_image sample_world ''harbour.dng'' = Inr ''QUJD''"
    by (simp add: sample_world_def)
  have m: "models claude_generator = CLAUDE_MODELS" "provider claude_generator = ''claude''"
    by (simp_all add: claude_generator_def)
  from default_model_by_style [OF init_Claude p, of "''social''" None]
  show ?thesis using init_Claude p by (auto simp: m CLAUDE_MODELS_def)
qed


section \<open>C2: an explicit model key outside the catalogue\<close>

text \<open>
  Claim C2. For a generator of either provider, every style, every image path and every
  world, a call of \<open>generate\<close> with an explicit model key that is not in the provider's
  catalogue fails with the error whose message names the offending key and the list of
  the provider's valid keys, and its trace is empty: no request is sent (and no image is
  prepared). The exception the source raises for this failure is a \<open>ValueError\<close>.
\<close>

theorem invalid_model_rejected:
  assumes "init key prov environ = Inr g" and "m \<notin> set (keys (models g))"
  shows "generate g w path style (Some m) loc =
           ([], Inl (ValueError (''Invalid '' @ (if provider g = ''claude'' then ''Claude'' else ''OpenAI'')
                                 @ '' model: '' @ m @ ''. Choose from '' @ repr_list (keys (models g)))))"
  using assms by (rule generate_invalid_key)

text \<open>
  C2 on the openai generator with the claude key \<open>opus\<close>, with the message spelled out.
\<close>

theorem invalid_model_rejected_witness:
  "init None ''OPENAI'' [''OPENAI_API_KEY'' \<mapsto> ''sk-test''] = Inr openai_generator \<and>
   ''opus'' \<notin> set (keys (models openai_generator)) \<and>
   generate openai_generator sample_world ''harbour.dng'' ''social'' (Some ''opus'') None =
     ([], Inl (ValueError ''Invalid OpenAI model: opus. Choose from ['gpt-4o', 'gpt-4o-mini', 'gpt-4-turbo']''))"
proof -
  have m: "models openai_generator = OPENAI_MODELS" "provider openai_generator = ''openai''"
    by (simp_all add: openai_generator_def)
  have k: "''opus'' \<notin> set (keys (models openai_generator))"
    by (simp add: m keys_OPENAI_MODELS)
  from invalid_model_rejected [OF init_OPENAI k, of sample_world "''harbour.dng''" "''social''" None]
  show ?thesis using init_OPENAI k by (simp add: m repr_openai)
qed


section \<open>C3: prompt composition\<close>

text \<open>
  Claim C3. For every style key of the style table with template \<open>template\<close>: the prompt
  composed with no location context is the template itself, and the prompt composed with
  a non-empty location sentence \<open>loc\<close> is the template, a blank line (two newlines) and
  \<open>loc\<close> verbatim. Both provider paths use this construction: for a generator of either
  provider, the text block of the request that \<open>generate\<close> issues is that prompt.
\<close>

theorem prompt_composition:
  assumes "init key prov environ = Inr g" and "prepare_image w path = Inr img"
    and "case mk of None \<Rightarrow> True | Some m \<Rightarrow> m \<in> set (keys (models g))"
    and "map_of STYLES style = Some template"
  shows "build_prompt style None = Inr template \<and>
         map texts (requests (fst (generate g w path style mk None))) = [[template]] \<and>
         (loc \<noteq> [] \<longrightarrow>
            build_prompt style (Some loc) = Inr (template @ ''\<newline>\<newline>'' @ loc) \<and>
            map texts (requests (fst (generate g w path style mk (Some loc))))
              = [[template @ ''\<newline>\<newline>'' @ loc]])"
proof -
  have b1: "build_prompt style None = Inr template"
    by (simp add: build_prompt_eq assms(4) truthy_def)
  have b2: "build_prompt style (Some loc) = Inr (template @ ''\<newline>\<newline>'' @ loc)" if "loc \<noteq> []"
    using that by (simp add: build_prompt_eq assms(4) truthy_def)
  have r: "map texts (requests (fst (generate g w path style mk l))) = [[p]]"
    if "build_prompt style l = Inr p" for l p
    using generate_valid [OF assms(1,3), of style l w path] assms(2) that
    by (cases "provider g = ''claude''") auto
  show ?thesis using b1 b2 r by blast
qed

text \<open>
  C3 on the claude generator, style \<open>minimal\<close>, with a location sentence.
\<close>

theorem prompt_composition_witness:
  "init (Some ''sk-test'') ''Claude'' Map.empty = Inr claude_generator \<and>
   prepare_image sample_world ''harbour.dng'' = Inr ''QUJD'' \<and>
   ''sonnet'' \<in> set (keys (models claude_generator)) \<and>
   map_of STYLES ''minimal'' = Some ''Write a brief one-sentence caption.'' \<and>
   map texts (requests (fst (generate claude_generator sample_world ''harbour.dng'' ''minimal''
                               (Some ''sonnet'') (Some ''Location: Oslo, Norway''))))
     = [[''Write a brief one-sentence caption.\<newline>\<newline>Location: Oslo, Norway'']]"
proof -
  have p: "prepare_image sample_world ''harbour.dng'' = Inr ''QUJD''"
    by (simp add: sample_world_def)
  have k: "''sonnet'' \<in> set (keys (models claude_generator))"
    by (simp add: claude_generator_def keys_CLAUDE_MODELS)
  have k': "case Some ''sonnet'' of None \<Rightarrow> True | Some m \<Rightarrow> m \<in> set (keys (models claude_generator))"
    using k by simp
  have t: "map_of STYLES ''minimal'' = Some ''Write a brief one-sentence caption.''"
    by (simp add: STYLES_def)
  from prompt_composition [OF init_Claude p k' t, of "''Location: Oslo, Norway''"]
  show ?thesis using init_Claude p k t by simp
qed


section \<open>C4: unknown style keywords\<close>

text \<open>
  Claim C4. For every style keyword that is not a key of the style table, the style
  lookup does not fail and resolves to the \<open>descriptive\<close> template. On both provider
  paths: for a generator of either provider, the request that \<open>generate\<close> issues for
  such a keyword carries the \<open>descriptive\<close> template as its text (followed by a blank line
  and the location sentence when there is one), and the whole call behaves as it does
  for the style \<open>descriptive\<close>.
\<close>

theorem unknown_style_falls_back:
  assumes "style \<notin> set (keys STYLES)"
  shows "build_prompt style None = getitem STYLES ''descriptive'' \<and>
         (\<exists>template. build_prompt style None = Inr template) \<and>
         build_prompt style None = Inr ''Write a 2-3 sentence professional caption for this image.'' \<and>
         build_prompt style loc = build_prompt ''descriptive'' loc \<and>
         generate_claude g w path style mk loc = generate_claude g w path ''descriptive'' mk loc \<and>
         generate_openai g w path style mk loc = generate_openai g w path ''descriptive'' mk loc \<and>
         (init key prov environ = Inr g' \<and> prepare_image w path = Inr img \<and>
          (case mk of None \<Rightarrow> True | Some m \<Rightarrow> m \<in> set (keys (models g'))) \<longrightarrow>
            map texts (requests (fst (generate g' w path style mk None)))
              = [[''Write a 2-3 sentence professional caption for this image.'']] \<and>
            (l \<noteq> [] \<longrightarrow>
               map texts (requests (fst (generate g' w path style mk (Some l))))
                 = [[''Write a 2-3 sentence professional caption for this image.'' @
                     ''\<newline>\<newline>'' @ l]]))"
proof -
  have n: "map_of STYLES style = None"
    using assms by (simp add: map_of_keys)
  have d: "map_of STYLES ''descriptive'' = Some ''Write a 2-3 sentence professional caption for this image.''"
    by (simp add: STYLES_def)
  have s: "style \<noteq> ''social''"
    using assms by (auto simp: keys_STYLES)
  have b: "build_prompt style l = build_prompt ''descriptive'' l" for l
    by (simp add: build_prompt_eq n d)
  have b0: "build_prompt style None = getitem STYLES ''descriptive''"
    by (simp add: build_prompt_eq n descriptive_template truthy_def)
  have b1: "build_prompt style None = Inr ''Write a 2-3 sentence professional caption for this image.''"
    by (simp add: build_prompt_eq n truthy_def)
  have b2: "build_prompt style (Some l) =
      Inr (''Write a 2-3 sentence professional caption for this image.'' @ ''\<newline>\<newline>'' @ l)"
    if "l \<noteq> []"
    using that by (simp add: build_prompt_eq n truthy_def)
  have c: "generate_claude g w path style mk loc = generate_claude g w path ''descriptive'' mk loc"
    by (cases mk) (simp_all add: generate_claude_def Let_def b s)
  have o: "generate_openai g w path style mk loc = generate_openai g w path ''descriptive'' mk loc"
    by (cases mk) (simp_all add: generate_openai_def Let_def b s)
  have r: "map texts (requests (fst (generate g' w path style mk c))) = [[p]]"
    if "build_prompt style c = Inr p" "init key prov environ = Inr g'" "prepare_image w path = Inr img"
       "case mk of None \<Rightarrow> True | Some m \<Rightarrow> m \<in> set (keys (models g'))" for c p
    using generate_valid [OF that(2,4), of style c w path] that(1,3)
    by (cases "provider g' = ''claude''") auto
  have ex: "\<exists>template. build_prompt style None = Inr template"
    using b1 by blast
  have new: "init key prov environ = Inr g' \<and> prepare_image w path = Inr img \<and>
          (case mk of None \<Rightarrow> True | Some m \<Rightarrow> m \<in> set (keys (models g'))) \<longrightarrow>
            map texts (requests (fst (generate g' w path style mk None)))
              = [[''Write a 2-3 sentence professional caption for this image.'']] \<and>
            (l \<noteq> [] \<longrightarrow>
               map texts (requests (fst (generate g' w path style mk (Some l))))
                 = [[''Write a 2-3 sentence professional caption for this image.'' @
                     ''\<newline>\<newline>'' @ l]])"
  proof (intro impI conjI; elim conjE)
    assume i: "init key prov environ = Inr g'" and p: "prepare_image w path = Inr img"
      and v: "case mk of None \<Rightarrow> True | Some m \<Rightarrow> m \<in> set (keys (models g'))"
    show "map texts (requests (fst (generate g' w path style mk None)))
              = [[''Write a 2-3 sentence professional caption for this image.'']]"
      using b1 i p v by (rule r)
    assume "l \<noteq> []"
    then have "build_prompt style (Some l) =
      Inr (''Write a 2-3 sentence professional caption for this image.'' @ ''\<newline>\<newline>'' @ l)"
      by (rule b2)
    then show "map texts (requests (fst (generate g' w path style mk (Some l))))
                 = [[''Write a 2-3 sentence professional caption for this image.'' @
                     ''\<newline>\<newline>'' @ l]]"
      using i p v by (rule r)
  qed
  show ?thesis
    using b0 ex b1 b [of loc] c o new by - (intro conjI, assumption+)
qed

text \<open>
  C4 on the keyword \<open>vintage\<close>: the request of the claude generator carries the
  \<open>descriptive\<close> template.
\<close>

theorem unknown_style_falls_back_witness:
  "''vintage'' \<notin> set (keys STYLES) \<and>
   init (Some ''sk-test'') ''Claude'' Map.empty = Inr claude_generator \<and>
   prepare_image sample_world ''harbour.dng'' = Inr ''QUJD'' \<and>
   build_prompt ''vintage'' None = Inr ''Write a 2-3 sentence professional caption for this image.'' \<and>
   map texts (requests (fst (generate claude_generator sample_world ''harbour.dng'' ''vintage'' None None)))
     = [[''Write a 2-3 sentence professional caption for this image.'']] \<and>
   generate_openai openai_generator sample_world ''harbour.dng'' ''vintage'' None None =
   generate_openai openai_generator sample_world ''harbour.dng'' ''descriptive'' None None"
proof -
  have k: "''vintage'' \<notin> set (keys STYLES)"
    by (simp add: keys_STYLES)
  have p: "prepare_image sample_world ''harbour.dng'' = Inr ''QUJD''"
    by (simp add: sample_world_def)
  from unknown_style_falls_back [OF k, of None openai_generator sample_world "''harbour.dng''" None
         "Some ''sk-test''" "''Claude''" Map.empty claude_generator "''QUJD''" "''x''"]
  show ?thesis using k p init_Claude by (simp add: descriptive_template)
qed


section \<open>C5: order of validation and image preparation\<close>

text \<open>
  Claim C5 says that image preparation is performed before the explicit model key is
  checked. It is not: lines 122 to 124 and 163 to 165 validate the key, and lines 127 and
  168 prepare the image afterwards. In a world where no image can be read, a call with a
  key outside the catalogue fails with the error of the key check, not with the error of
  the image, and no image preparation has taken place.
\<close>

theorem preparation_before_validation_counterexample:
  "init (Some ''sk-test'') ''Claude'' Map.empty = Inr claude_generator \<and>
   preparations (fst (generate claude_generator unreadable_world ''missing.dng'' ''descriptive''
                        (Some ''gpt-4o'') None)) = [] \<and>
   snd (generate claude_generator unreadable_world ''missing.dng'' ''descriptive''
          (Some ''gpt-4o'') None)
     = Inl (ValueError ''Invalid Claude model: gpt-4o. Choose from ['haiku', 'sonnet', 'opus']'')"
proof -
  have k: "''gpt-4o'' \<notin> set (keys CLAUDE_MODELS)"
    by (simp add: keys_CLAUDE_MODELS)
  show ?thesis
    using init_Claude
    by (simp add: generate_def claude_generator_def generate_claude_invalid [OF k] repr_claude)
qed

text \<open>
  Claim C5 as amended: model-key validation comes before image preparation. For a
  generator of either provider, the image is prepared (once) exactly when the model key,
  explicit or default, passes the check against the provider's catalogue; a call with an
  invalid explicit key prepares no image.
\<close>

theorem validation_before_preparation:
  assumes "init key prov environ = Inr g"
  shows "preparations (fst (generate g w path style mk loc)) =
           (if (case mk of None \<Rightarrow> True | Some m \<Rightarrow> m \<in> set (keys (models g))) then [path] else [])"
proof (cases "case mk of None \<Rightarrow> True | Some m \<Rightarrow> m \<in> set (keys (models g))")
  case True
  from generate_valid [OF assms True, of style loc w path] True show ?thesis
    by (cases "prepare_image w path"; cases "provider g = ''claude''") auto
next
  case False
  then obtain m where m: "mk = Some m" "m \<notin> set (keys (models g))"
    by (cases mk) auto
  have "fst (generate g w path style (Some m) loc) = []"
    by (simp add: generate_invalid_key [OF assms m(2)])
  then show ?thesis using m by simp
qed

text \<open>
  The amended C5 on the claude generator, once with a valid and once with an invalid key.
\<close>

theorem validation_before_preparation_witness:
  "init (Some ''sk-test'') ''Claude'' Map.empty = Inr claude_generator \<and>
   preparations (fst (generate claude_generator unreadable_world ''missing.dng'' ''travel''
                        (Some ''haiku'') None)) = [''missing.dng''] \<and>
   preparations (fst (generate claude_generator unreadable_world ''missing.dng'' ''travel''
                        (Some ''gpt-4o'') None)) = []"
proof -
  have m: "models claude_generator = CLAUDE_MODELS"
    by (simp add: claude_generator_def)
  from validation_before_preparation [OF init_Claude, of unreadable_world "''missing.dng''" "''travel''" "Some ''haiku''" None]
       validation_before_preparation [OF init_Claude, of unreadable_world "''missing.dng''" "''travel''" "Some ''gpt-4o''" None]
  show ?thesis using init_Claude by (simp add: m keys_CLAUDE_MODELS)
qed


section \<open>C6: the size of the prepared image\<close>

text \<open>
  Claim C6. For a decoded image of positive width and height, the prepared image is
  never larger than the input on either side and never larger than 1600 pixels on
  either side. An input of at most 1600 pixels on both sides keeps its size. An
  oversized input is scaled down so that its longer side is exactly 1600 and its shorter
  side is less than one pixel away from the proportional value, 1600 times the shorter
  side over the longer one (and at least 1).
\<close>

theorem prepared_size_bounded:
  assumes "1 \<le> width" and "1 \<le> height"
  shows "1 \<le> fst (prepared_size (width, height)) \<and> 1 \<le> snd (prepared_size (width, height)) \<and>
         fst (prepared_size (width, height)) \<le> width \<and>
         snd (prepared_size (width, height)) \<le> height \<and>
         fst (prepared_size (width, height)) \<le> 1600 \<and>
         snd (prepared_size (width, height)) \<le> 1600 \<and>
         (width \<le> 1600 \<and> height \<le> 1600 \<longrightarrow> prepared_size (width, height) = (width, height)) \<and>
         (1600 < height \<and> width \<le> height \<longrightarrow>
            snd (prepared_size (width, height)) = 1600 \<and>
            \<bar>of_int (fst (prepared_size (width, height))) - 1600 * of_int width / of_int height\<bar>
              < (1::rat)) \<and>
         (1600 < width \<and> height < width \<longrightarrow>
            fst (prepared_size (width, height)) = 1600 \<and>
            \<bar>of_int (snd (prepared_size (width, height))) - 1600 * of_int height / of_int width\<bar>
              < (1::rat))"
proof -
  consider (within) "width \<le> 1600" "height \<le> 1600"
    | (tall) "1600 < height" "width \<le> height"
    | (wide) "1600 < width" "height < width"
    by linarith
  then show ?thesis
  proof cases
    case within
    then show ?thesis using assms by (simp add: prepared_within)
  next
    case tall
    obtain key where p: "prepared_size (width, height) =
        (round_aspect (1600 * of_int width / of_int height) key, 1600)"
      using prepared_tall [OF assms(1) tall(2,1)] by blast
    note s = scaled_bounds [OF assms(1) tall(2,1)]
    note r = round_aspect_bounds [OF s(1), of key]
    show ?thesis using p r s tall assms by auto
  next
    case wide
    obtain key where p: "prepared_size (width, height) =
        (1600, round_aspect (1600 * of_int height / of_int width) key)"
      using prepared_wide [OF assms(2) wide(2,1)] by blast
    have hw: "height \<le> width" using wide by simp
    note s = scaled_bounds [OF assms(2) hw wide(1)]
    note r = round_aspect_bounds [OF s(1), of key]
    show ?thesis using p r s wide assms by auto
  qed
qed

text \<open>
  C6 on a 4000 by 3000 image, with further sizes evaluated: portrait, within bounds,
  nearly square and extremely wide.
\<close>

theorem prepared_size_bounded_witness:
  "(1::int) \<le> 4000 \<and> (1::int) \<le> 3000 \<and> prepared_size (4000, 3000) = (1600, 1200) \<and>
   prepared_size (3000, 4000) = (1200, 1600) \<and> prepared_size (800, 600) = (800, 600) \<and>
   prepared_size (1601, 1600) = (1600, 1599) \<and> prepared_size (100000, 1) = (1600, 1)"
proof -
  have e: "prepared_size (4000, 3000) = (1600, 1200)" "prepared_size (3000, 4000) = (1200, 1600)"
    "prepared_size (800, 600) = (800, 600)"
    by (simp_all add: prepared_size_def thumbnail_def round_aspect_def)
  have f: "prepared_size (1601, 1600) = (1600, 1599)" "prepared_size (100000, 1) = (1600, 1)"
    by code_simp+
  from prepared_size_bounded [of 4000 3000]
  show ?thesis using e f by simp
qed


section \<open>C7: which geocoding failures are absorbed\<close>

text \<open>
  Claim C7 says that \<open>reverse_geocode\<close> never propagates an error and that every failure
  other than a timeout or a service error yields \<open>None\<close>. The \<open>except\<close> clause names
  \<open>GeocoderTimedOut\<close> and \<open>GeocoderServiceError\<close> only: when the service call raises
  anything else, here the \<open>ValueError\<close> for a latitude of 95 degrees, the exception leaves
  \<open>reverse_geocode\<close> after the first call.
\<close>

theorem geocode_never_raises_counterexample:
  "reverse_geocode rejecting_geolocator 95 10 2 = ([Reverse], Inl (Raised ''ValueError''))"
  by (simp add: reverse_geocode_def py_range_def upt_rec rejecting_geolocator_def)

text \<open>
  Claim C7 as amended: \<open>reverse_geocode\<close> absorbs the geocoder's timeouts and service
  errors, and only those. (1) If no call within the retry count raises another
  exception, \<open>reverse_geocode\<close> returns a value and raises nothing. (2) If every call
  within the retry count times out or fails with a service error, the trace is exactly
  \<open>retries\<close> calls with one sleep of one second between each two of them (none after the
  last, none at all when \<open>retries\<close> is not positive), and the result is \<open>None\<close>. (3) If
  call number \<open>j\<close> raises another exception \<open>e\<close>, and the calls before it timed out,
  failed with a service error or found nothing, then \<open>e\<close> propagates to the caller right
  after that call: the trace is, for each earlier call, the call followed by a sleep of
  one second unless it found nothing, and then the call that raises.
\<close>

theorem geocode_absorbs_service_errors_only:
  "((\<forall>n < nat retries. \<forall>e. geolocator lat lon n \<noteq> OtherException e) \<longrightarrow>
      (\<exists>r. snd (reverse_geocode geolocator lat lon retries) = Inr r)) \<and>
   ((\<forall>n < nat retries. geolocator lat lon n = GeocoderTimedOut \<or>
                        geolocator lat lon n = GeocoderServiceError) \<longrightarrow>
      reverse_geocode geolocator lat lon retries =
        (if retries \<le> 0 then []
         else Reverse # concat (replicate (nat retries - 1) [Sleep 1, Reverse]), Inr None) \<and>
      count_list (fst (reverse_geocode geolocator lat lon retries)) Reverse = nat retries \<and>
      count_list (fst (reverse_geocode geolocator lat lon retries)) (Sleep 1) = nat retries - 1) \<and>
   (j < nat retries \<and> geolocator lat lon j = OtherException e \<and>
    (\<forall>n < j. geolocator lat lon n = GeocoderTimedOut \<or> geolocator lat lon n = GeocoderServiceError \<or>
             geolocator lat lon n = NotFound) \<longrightarrow>
      reverse_geocode geolocator lat lon retries =
        (concat (map (\<lambda>n. if geolocator lat lon n = NotFound then [Reverse] else [Reverse, Sleep 1])
                     [0..<j]) @ [Reverse],
         Inl (Raised e)) \<and>
      count_list (fst (reverse_geocode geolocator lat lon retries)) Reverse = Suc j)"
proof (intro conjI impI)
  assume "\<forall>n < nat retries. \<forall>e. geolocator lat lon n \<noteq> OtherException e"
  then show "\<exists>r. snd (reverse_geocode geolocator lat lon retries) = Inr r"
    using attempts_no_raise [of 0 "nat retries" "geolocator lat lon" retries]
    by (simp add: reverse_geocode_def py_range_def)
next
  assume a: "\<forall>n < nat retries. geolocator lat lon n = GeocoderTimedOut \<or>
                        geolocator lat lon n = GeocoderServiceError"
  have c: "snd (attempts (geolocator lat lon) retries (map int [0..<nat retries]) 0) = Inr None \<and>
   count_list (fst (attempts (geolocator lat lon) retries (map int [0..<nat retries]) 0)) Reverse = nat retries - 0 \<and>
   count_list (fst (attempts (geolocator lat lon) retries (map int [0..<nat retries]) 0)) (Sleep 1) = (nat retries - 1) - 0"
    using a by (intro attempts_all_retryable) simp_all
  have t: "fst (attempts (geolocator lat lon) retries (map int [0..<nat retries]) 0) =
     (if 0 < nat retries then Reverse # concat (replicate (nat retries - 1 - 0) [Sleep 1, Reverse]) else [])"
    using a by (intro attempts_retryable_trace) simp_all
  have "reverse_geocode geolocator lat lon retries =
          (fst (reverse_geocode geolocator lat lon retries), snd (reverse_geocode geolocator lat lon retries))"
    by simp
  then show "reverse_geocode geolocator lat lon retries =
        (if retries \<le> 0 then []
         else Reverse # concat (replicate (nat retries - 1) [Sleep 1, Reverse]), Inr None)"
    using c t by (auto simp: reverse_geocode_def py_range_def)
  show "count_list (fst (reverse_geocode geolocator lat lon retries)) Reverse = nat retries"
    "count_list (fst (reverse_geocode geolocator lat lon retries)) (Sleep 1) = nat retries - 1"
    using c by (simp_all add: reverse_geocode_def py_range_def)
next
  assume a: "j < nat retries \<and> geolocator lat lon j = OtherException e \<and>
    (\<forall>n < j. geolocator lat lon n = GeocoderTimedOut \<or> geolocator lat lon n = GeocoderServiceError \<or>
             geolocator lat lon n = NotFound)"
  have c: "snd (attempts (geolocator lat lon) retries (map int [0..<nat retries]) 0) = Inl (Raised e) \<and>
   count_list (fst (attempts (geolocator lat lon) retries (map int [0..<nat retries]) 0)) Reverse = Suc (j - 0)"
    using a by (intro attempts_raise) simp_all
  have t: "fst (attempts (geolocator lat lon) retries (map int [0..<nat retries]) 0) =
     concat (map (\<lambda>n. if geolocator lat lon n = NotFound then [Reverse] else [Reverse, Sleep 1]) [0..<j])
       @ [Reverse]"
    using a by (intro attempts_raise_trace) simp_all
  show "reverse_geocode geolocator lat lon retries =
        (concat (map (\<lambda>n. if geolocator lat lon n = NotFound then [Reverse] else [Reverse, Sleep 1])
                     [0..<j]) @ [Reverse],
         Inl (Raised e))"
    using c t by (simp add: reverse_geocode_def py_range_def prod_eq_iff)
  show "count_list (fst (reverse_geocode geolocator lat lon retries)) Reverse = Suc j"
    using c by (simp add: reverse_geocode_def py_range_def)
qed

text \<open>
  The amended C7 on three services: one that always times out (three calls, two sleeps
  between them), one that raises a \<open>ValueError\<close> at once, and one whose only call is a
  service error.
\<close>

theorem geocode_absorbs_service_errors_only_witness:
  "rejecting_geolocator 59 10 0 = GeocoderTimedOut \<and>
   rejecting_geolocator 59 10 1 = GeocoderTimedOut \<and>
   rejecting_geolocator 59 10 2 = GeocoderTimedOut \<and>
   reverse_geocode rejecting_geolocator 59 10 3 =
     ([Reverse, Sleep 1, Reverse, Sleep 1, Reverse], Inr None) \<and>
   (0::nat) < nat 3 \<and> rejecting_geolocator 95 10 0 = OtherException ''ValueError'' \<and>
   reverse_geocode rejecting_geolocator 95 10 3 = ([Reverse], Inl (Raised ''ValueError'')) \<and>
   flaky_geolocator 59 10 0 = GeocoderServiceError \<and>
   reverse_geocode flaky_geolocator 59 10 1 = ([Reverse], Inr None)"
proof -
  have a: "rejecting_geolocator 59 10 n = GeocoderTimedOut" for n
    by (simp add: rejecting_geolocator_def)
  have b: "rejecting_geolocator 95 10 0 = OtherException ''ValueError''"
    by (simp add: rejecting_geolocator_def)
  have c: "flaky_geolocator 59 10 0 = GeocoderServiceError"
    by (simp add: flaky_geolocator_def)
  have n: "replicate 2 x = [x, x]" for x :: "geo_event list"
    by (simp add: numeral_2_eq_2)
  from geocode_absorbs_service_errors_only [of 3 rejecting_geolocator 59 10 0 "''ValueError''"]
       geocode_absorbs_service_errors_only [of 3 rejecting_geolocator 95 10 0 "''ValueError''"]
       geocode_absorbs_service_errors_only [of 1 flaky_geolocator 59 10 0 "''ValueError''"]
  show ?thesis using a b c by (simp add: n)
qed


section \<open>C8: two attempts, one sleep\<close>

text \<open>
  Claim C8. With \<open>retries = 2\<close> and a service whose first two calls each time out or fail
  with a service error, \<open>reverse_geocode\<close> calls the service exactly twice, sleeps exactly
  once, for one second and between the two calls, and returns \<open>None\<close>.
\<close>

theorem two_attempts_one_sleep:
  assumes "geolocator lat lon 0 = GeocoderTimedOut \<or> geolocator lat lon 0 = GeocoderServiceError"
    and "geolocator lat lon 1 = GeocoderTimedOut \<or> geolocator lat lon 1 = GeocoderServiceError"
  shows "reverse_geocode geolocator lat lon 2 = ([Reverse, Sleep 1, Reverse], Inr None)"
proof -
  have r: "py_range 2 = [0, 1]"
    by (simp add: py_range_def upt_rec)
  show ?thesis
    using assms by (auto simp: reverse_geocode_def r after_def)
qed

text \<open>
  C8 on the service that always times out.
\<close>

theorem two_attempts_one_sleep_witness:
  "rejecting_geolocator 59 10 0 = GeocoderTimedOut \<and> rejecting_geolocator 59 10 1 = GeocoderTimedOut \<and>
   reverse_geocode rejecting_geolocator 59 10 2 = ([Reverse, Sleep 1, Reverse], Inr None)"
proof -
  have a: "rejecting_geolocator 59 10 n = GeocoderTimedOut" for n
    by (simp add: rejecting_geolocator_def)
  from two_attempts_one_sleep [of rejecting_geolocator 59 10]
  show ?thesis using a by simp
qed


section \<open>C9: one request of at most 300 tokens, trimmed text\<close>

text \<open>
  Claim C9. For a generator of either provider, a model key that passes validation and
  an image that can be prepared, \<open>generate\<close> issues exactly one request, whose maximum
  output token count is 300: \<open>messages.create\<close> on the claude path,
  \<open>chat.completions.create\<close> on the openai path. When the answer's first content
  segment (claude) or first choice's message content (openai) is a text \<open>t\<close>, the call
  returns \<open>strip t\<close>, which is \<open>t\<close> without its leading and trailing whitespace.
\<close>

theorem single_request_trimmed_text:
  assumes "init key prov environ = Inr g" and "prepare_image w path = Inr img"
    and "case mk of None \<Rightarrow> True | Some m \<Rightarrow> m \<in> set (keys (models g))"
  shows "\<exists>req. requests (fst (generate g w path style mk loc)) = [req] \<and> max_tokens req = 300 \<and>
           (provider g = ''claude'' \<longrightarrow>
              fst (generate g w path style mk loc) = [PrepareImage path, MessagesCreate req] \<and>
              (\<forall>t rest. messages_create w req = Inr (TextBlock t # rest) \<longrightarrow>
                 snd (generate g w path style mk loc) = Inr (strip t))) \<and>
           (provider g = ''openai'' \<longrightarrow>
              fst (generate g w path style mk loc) = [PrepareImage path, ChatCompletionsCreate req] \<and>
              (\<forall>t rest. chat_completions_create w req = Inr (Some t # rest) \<longrightarrow>
                 snd (generate g w path style mk loc) = Inr (strip t))) \<and>
           (\<forall>t. \<exists>pre post. t = pre @ strip t @ post \<and> list_all isspace pre \<and> list_all isspace post \<and>
                 (strip t = [] \<or> (\<not> isspace (hd (strip t)) \<and> \<not> isspace (last (strip t)))))"
proof -
  have "\<exists>(info :: model_info) prompt. generate g w path style mk loc =
          (if provider g = ''claude''
           then ([PrepareImage path, MessagesCreate (claude_request (name info) img prompt)],
                 case messages_create w (claude_request (name info) img prompt) of
                   Inl e \<Rightarrow> Inl e | Inr response \<Rightarrow> claude_text response)
           else ([PrepareImage path, ChatCompletionsCreate (openai_request (name info) img prompt)],
                 case chat_completions_create w (openai_request (name info) img prompt) of
                   Inl e \<Rightarrow> Inl e | Inr response \<Rightarrow> openai_text response))"
    using generate_valid [OF assms(1,3), of style loc w path] assms(2)
    by (cases "provider g = ''claude''") auto
  then obtain info :: model_info and prompt where
    g: "generate g w path style mk loc =
          (if provider g = ''claude''
           then ([PrepareImage path, MessagesCreate (claude_request (name info) img prompt)],
                 case messages_create w (claude_request (name info) img prompt) of
                   Inl e \<Rightarrow> Inl e | Inr response \<Rightarrow> claude_text response)
           else ([PrepareImage path, ChatCompletionsCreate (openai_request (name info) img prompt)],
                 case chat_completions_create w (openai_request (name info) img prompt) of
                   Inl e \<Rightarrow> Inl e | Inr response \<Rightarrow> openai_text response))"
    by blast
  have p: "provider g = ''claude'' \<or> provider g = ''openai''"
    using init_cases [OF assms(1)] by blast
  show ?thesis
  proof (cases "provider g = ''claude''")
    case True
    let ?req = "claude_request (name info) img prompt"
    have "requests (fst (generate g w path style mk loc)) = [?req]" "max_tokens ?req = 300"
         "fst (generate g w path style mk loc) = [PrepareImage path, MessagesCreate ?req]"
         "\<forall>t rest. messages_create w ?req = Inr (TextBlock t # rest) \<longrightarrow>
                 snd (generate g w path style mk loc) = Inr (strip t)"
      using g True by (simp_all add: claude_text_def)
    then show ?thesis using True strip_trims by (intro exI [of _ ?req]) simp
  next
    case False
    let ?req = "openai_request (name info) img prompt"
    have "requests (fst (generate g w path style mk loc)) = [?req]" "max_tokens ?req = 300"
         "fst (generate g w path style mk loc) = [PrepareImage path, ChatCompletionsCreate ?req]"
         "\<forall>t rest. chat_completions_create w ?req = Inr (Some t # rest) \<longrightarrow>
                 snd (generate g w path style mk loc) = Inr (strip t)"
      using g False by (simp_all add: openai_text_def)
    then show ?thesis using False strip_trims by (intro exI [of _ ?req]) simp
  qed
qed

text \<open>
  C9 on the claude generator: one request of 300 tokens, and the caption is trimmed.
\<close>

theorem single_request_trimmed_text_witness:
  "init (Some ''sk-test'') ''Claude'' Map.empty = Inr claude_generator \<and>
   prepare_image sample_world ''harbour.dng'' = Inr ''QUJD'' \<and>
   map max_tokens (requests (fst (generate claude_generator sample_world ''harbour.dng''
                                    ''descriptive'' None None))) = [300] \<and>
   snd (generate claude_generator sample_world ''harbour.dng'' ''descriptive'' None None)
     = Inr ''A quiet harbour at dawn.''"
proof -
  have p: "prepare_image sample_world ''harbour.dng'' = Inr ''QUJD''"
    by (simp add: sample_world_def)
  have v: "case None of None \<Rightarrow> True | Some m \<Rightarrow> m \<in> set (keys (models claude_generator))"
    by simp
  have c: "provider claude_generator = ''claude''"
    by (simp add: claude_generator_def)
  have r: "messages_create sample_world req = Inr [TextBlock ''  A quiet harbour at dawn.\<newline>'']" for req
    by (simp add: sample_world_def)
  from single_request_trimmed_text [OF init_Claude p v, of "''descriptive''" None]
  show ?thesis using init_Claude p c r strip_sample by auto
qed


section \<open>C10: the provider name is matched case-insensitively\<close>

text \<open>
  Claim C10. \<open>__init__\<close> matches the provider name case-insensitively. A string
  lower-cases to \<open>claude\<close> (or \<open>openai\<close>) exactly when it is a capitalisation variant of
  that name; every capitalisation variant of \<open>claude\<close> (or \<open>openai\<close>) is accepted
  whenever a credential is available and gives a generator bound to that provider, its
  client and its catalogue; and the invalid-provider error, which quotes the name as it
  was given, is raised exactly for the strings that are a capitalisation variant of
  neither name.
\<close>

theorem provider_name_case_insensitive:
  "(lower prov = ''claude'' \<longleftrightarrow> capitalization_variant prov ''claude'') \<and>
   (lower prov = ''openai'' \<longleftrightarrow> capitalization_variant prov ''openai'') \<and>
   (capitalization_variant prov ''claude'' \<and> truthy (py_or key (environ ''ANTHROPIC_API_KEY'')) \<longrightarrow>
      (\<exists>g s. init key prov environ = Inr g \<and> provider g = ''claude'' \<and>
             client g = Anthropic s \<and> models g = CLAUDE_MODELS)) \<and>
   (capitalization_variant prov ''openai'' \<and> truthy (py_or key (environ ''OPENAI_API_KEY'')) \<longrightarrow>
      (\<exists>g s. init key prov environ = Inr g \<and> provider g = ''openai'' \<and>
             client g = OpenAI s \<and> models g = OPENAI_MODELS)) \<and>
   (init key prov environ =
      Inl (ValueError (''Invalid provider: '' @ prov @ ''. Must be 'claude' or 'openai'' @ [CHR 0x27]))
    \<longleftrightarrow> \<not> capitalization_variant prov ''claude'' \<and> \<not> capitalization_variant prov ''openai'')"
  unfolding lower_eq_claude [symmetric] lower_eq_openai [symmetric] init_def Let_def
  by (auto simp: truthy_def split: option.splits)

text \<open>
  C10 on \<open>Claude\<close>, \<open>OPENAI\<close> and \<open>Gemini\<close>.
\<close>

theorem provider_name_case_insensitive_witness:
  "capitalization_variant ''Claude'' ''claude'' \<and>
   truthy (py_or (Some ''sk-test'') (Map.empty ''ANTHROPIC_API_KEY'')) \<and>
   init (Some ''sk-test'') ''Claude'' Map.empty = Inr claude_generator \<and>
   capitalization_variant ''OPENAI'' ''openai'' \<and>
   init None ''OPENAI'' [''OPENAI_API_KEY'' \<mapsto> ''sk-test''] = Inr openai_generator \<and>
   \<not> capitalization_variant ''Gemini'' ''claude'' \<and> \<not> capitalization_variant ''Gemini'' ''openai'' \<and>
   init (Some ''sk-test'') ''Gemini'' Map.empty =
      Inl (ValueError (''Invalid provider: Gemini. Must be 'claude' or 'openai'' @ [CHR 0x27]))"
proof -
  have v: "capitalization_variant ''Claude'' ''claude''" "capitalization_variant ''OPENAI'' ''openai''"
    "\<not> capitalization_variant ''Gemini'' ''claude''" "\<not> capitalization_variant ''Gemini'' ''openai''"
    by (simp_all add: capitalization_variant_def)
  have t: "truthy (py_or (Some ''sk-test'') (Map.empty ''ANTHROPIC_API_KEY''))"
    by (simp add: truthy_def py_or_def)
  from provider_name_case_insensitive [of "''Gemini''" "Some ''sk-test''" Map.empty]
       provider_name_case_insensitive [of "''Claude''" "Some ''sk-test''" Map.empty]
  show ?thesis using v t init_Claude init_OPENAI by simp
qed

end
